theory Spec2Isabelle
  imports Main "HOL-Library.Word"
begin

section \<open>File Organizer: strings and the extension classifier (organizer.c)\<close>

text \<open>
  A C string is modelled as a \<open>string\<close> (a list of bytes without the terminating NUL);
  a possibly-NULL \<open>const char *\<close> is a \<open>string option\<close>.
\<close>

subsection \<open>The extension table\<close>

definition EXTENSION_TABLE :: "(string \<times> string) list" where
  "EXTENSION_TABLE =
    [(''jpg'', ''Images''), (''jpeg'', ''Images''), (''png'', ''Images''),
     (''gif'', ''Images''), (''bmp'', ''Images''), (''tif'', ''Images''),
     (''tiff'', ''Images''), (''svg'', ''Images''),
     (''txt'', ''Documents''), (''md'', ''Documents''), (''pdf'', ''Documents''),
     (''doc'', ''Documents''), (''docx'', ''Documents''), (''rtf'', ''Documents''),
     (''xls'', ''Spreadsheets''), (''xlsx'', ''Spreadsheets''), (''csv'', ''Spreadsheets''),
     (''ppt'', ''Presentations''), (''pptx'', ''Presentations''),
     (''mp3'', ''Audio''), (''wav'', ''Audio''), (''flac'', ''Audio''),
     (''aac'', ''Audio''), (''ogg'', ''Audio''),
     (''mp4'', ''Video''), (''mkv'', ''Video''), (''avi'', ''Video''),
     (''mov'', ''Video''), (''wmv'', ''Video''),
     (''zip'', ''Archives''), (''rar'', ''Archives''), (''7z'', ''Archives''),
     (''tar'', ''Archives''), (''gz'', ''Archives''),
     (''c'', ''Source''), (''h'', ''Source''), (''cpp'', ''Source''),
     (''hpp'', ''Source''), (''py'', ''Source''), (''java'', ''Source''),
     (''js'', ''Source''), (''ts'', ''Source''), (''cs'', ''Source''),
     (''go'', ''Source''), (''rb'', ''Source''), (''php'', ''Source'')]"

definition DEFAULT_CATEGORY :: string where
  "DEFAULT_CATEGORY = ''Other''"

subsection \<open>to_lowercase, get_extension, category_for_extension\<close>

text \<open>
  \<open>to_lowercase\<close> rewrites the bytes \<open>'A'..'Z'\<close> (65..90) to \<open>'a'..'z'\<close> and leaves every
  other byte alone.
\<close>

definition lower_char :: "char \<Rightarrow> char" where
  "lower_char c =
     (if (65::nat) \<le> of_char c \<and> (of_char c :: nat) \<le> 90
      then char_of ((of_char c :: nat) - 65 + 97) else c)"

definition to_lowercase :: "string \<Rightarrow> string" where
  "to_lowercase s = map lower_char s"

text \<open>\<open>strrchr s c\<close>: the index of the last occurrence of \<open>c\<close> in \<open>s\<close>, if any.\<close>

fun strrchr :: "string \<Rightarrow> char \<Rightarrow> nat option" where
  "strrchr [] c = None"
| "strrchr (x # xs) c =
     (case strrchr xs c of
        Some i \<Rightarrow> Some (Suc i)
      | None \<Rightarrow> (if x = c then Some 0 else None))"

definition get_extension :: "string \<Rightarrow> string option" where
  "get_extension name =
     (case strrchr name (CHR ''.'') of
        None \<Rightarrow> None
      | Some dot \<Rightarrow> (if dot = 0 then None else Some (drop (Suc dot) name)))"

text \<open>The linear search of the table: the first entry whose key equals \<open>tmp\<close> wins.\<close>

fun table_search :: "(string \<times> string) list \<Rightarrow> string \<Rightarrow> string" where
  "table_search [] tmp = DEFAULT_CATEGORY"
| "table_search ((ext, category) # rest) tmp =
     (if tmp = ext then category else table_search rest tmp)"

definition category_for_extension :: "string option \<Rightarrow> string" where
  "category_for_extension ext =
     (case ext of
        None \<Rightarrow> DEFAULT_CATEGORY
      | Some e \<Rightarrow>
          (if length e = 0 \<or> length e \<ge> 64 then DEFAULT_CATEGORY
           else table_search EXTENSION_TABLE (to_lowercase e)))"


section \<open>The environment: logger, file system, system calls\<close>

subsection \<open>Logger (logger.h, logger.c)\<close>

datatype LogLevel = LOG_LEVEL_ERROR | LOG_LEVEL_WARN | LOG_LEVEL_INFO | LOG_LEVEL_DEBUG

text \<open>The enumerators' values, which \<open>logger_log\<close> compares.\<close>

fun level_value :: "LogLevel \<Rightarrow> nat" where
  "level_value LOG_LEVEL_ERROR = 0"
| "level_value LOG_LEVEL_WARN = 1"
| "level_value LOG_LEVEL_INFO = 2"
| "level_value LOG_LEVEL_DEBUG = 3"

text \<open>
  One constructor per format string that organizer.c passes to \<open>logger_log\<close>, carrying the
  \<open>%s\<close> arguments in order. The timestamp and the \<open>strerror(errno)\<close> text are not modelled.
\<close>

datatype log_msg =
    Invalid_configuration
  | Cannot_access_directory string
  | Path_is_not_a_directory string
  | Failed_to_open_directory string
  | Organizing_files_in string bool
  | Skipping_cannot_stat string
  | Skipping_non_regular_file string
  | Dry_run_move string string
  | Failed_to_move string string
  | Moved string string
  | Path_exists_but_is_not_a_directory string
  | Failed_to_create_directory string
  | Created_directory string
  | Could_not_generate_unique_name string string

subsection \<open>File system\<close>

text \<open>
  \<open>file_kind\<close> is what the macros \<open>S_ISREG\<close> and \<open>S_ISDIR\<close> tell about an \<open>st_mode\<close>:
  a regular file, a directory, or anything else (device, FIFO, socket).
  A path names either a plain node of some kind or a symbolic link; for a link the model
  records the kind of the node it resolves to (\<open>None\<close> for a dangling link), which is what
  \<open>stat\<close>, following links, reports. Paths are opaque keys: two spellings of one path are
  two keys.
\<close>

datatype file_kind = S_IFREG | S_IFDIR | S_IFOTHER

datatype node = Plain file_kind | Symlink "file_kind option"

text \<open>
  The state of the world a run sees and changes: the nodes by path, the entries that
  \<open>opendir\<close>/\<open>readdir\<close> deliver for a directory (\<open>None\<close>: \<open>opendir\<close> fails; the
  sequence is the one at the time the directory is opened), which \<open>mkdir\<close> and
  \<open>rename\<close> calls the system refuses (permissions and the like), the logger's
  \<open>current_level\<close>, and the lines the logger has printed (\<open>stdout\<close> and \<open>stderr\<close> in
  one sequence).
\<close>

record world =
  files :: "string \<Rightarrow> node option"
  dir_entries :: "string \<Rightarrow> string list option"
  mkdir_refused :: "string \<Rightarrow> bool"
  rename_refused :: "string \<Rightarrow> string \<Rightarrow> bool"
  current_level :: LogLevel
  printed :: "(LogLevel \<times> log_msg) list"

definition logger_log :: "LogLevel \<Rightarrow> log_msg \<Rightarrow> world \<Rightarrow> world" where
  "logger_log level msg w =
     (if level_value level > level_value (current_level w) then w
      else w\<lparr>printed := printed w @ [(level, msg)]\<rparr>)"

text \<open>\<open>stat\<close> follows symbolic links; \<open>None\<close> is a nonzero return.\<close>

definition sys_stat :: "world \<Rightarrow> string \<Rightarrow> file_kind option" where
  "sys_stat w path =
     (case files w path of
        None \<Rightarrow> None
      | Some (Plain k) \<Rightarrow> Some k
      | Some (Symlink target) \<Rightarrow> target)"

text \<open>\<open>mkdir\<close> fails when the path names anything at all, or when the system refuses.\<close>

definition sys_mkdir :: "string \<Rightarrow> world \<Rightarrow> int \<times> world" where
  "sys_mkdir path w =
     (if files w path \<noteq> None \<or> mkdir_refused w path then (- 1, w)
      else (0, w\<lparr>files := (files w)(path \<mapsto> Plain S_IFDIR)\<rparr>))"

text \<open>
  \<open>rename\<close> moves the node itself (a link is not followed) and replaces what the new path
  named; it fails when the old path names nothing, or when the system refuses.
\<close>

definition sys_rename :: "string \<Rightarrow> string \<Rightarrow> world \<Rightarrow> int \<times> world" where
  "sys_rename old new w =
     (case files w old of
        None \<Rightarrow> (- 1, w)
      | Some n \<Rightarrow>
          (if rename_refused w old new then (- 1, w)
           else (0, w\<lparr>files := ((files w)(old := None))(new \<mapsto> n)\<rparr>)))"

section \<open>The organizer (organizer.h, organizer.c)\<close>

record OrganizerConfig =
  target_dir :: "string option"
  dry_run :: bool
  verbose :: bool

text \<open>\<open>PATH_MAX\<close> of \<open>limits.h\<close> on Linux, and the fallback that organizer.c defines.\<close>

definition PATH_MAX :: nat where
  "PATH_MAX = 4096"

subsection \<open>snprintf and join_path\<close>

text \<open>
  \<open>snprintf buffer bufsize text\<close>, with \<open>text\<close> the fully formatted output: the value returned is
  the length of \<open>text\<close>, and the buffer receives at most \<open>bufsize - 1\<close> bytes of it (nothing
  when \<open>bufsize\<close> is 0). All strings here are far shorter than \<open>INT_MAX\<close>.
\<close>

definition snprintf :: "string \<Rightarrow> nat \<Rightarrow> string \<Rightarrow> int \<times> string" where
  "snprintf buffer bufsize text =
     (int (length text), if bufsize = 0 then buffer else take (bufsize - 1) text)"

definition join_path :: "string \<Rightarrow> nat \<Rightarrow> string \<Rightarrow> string \<Rightarrow> string" where
  "join_path buffer bufsize dir name =
     (if bufsize = 0 then buffer
      else
        let len = length dir;
            needs_sep = \<not> (len > 0 \<and> (dir ! (len - 1) = CHR ''/'' \<or> dir ! (len - 1) = CHR 0x5C))
        in if needs_sep then snd (snprintf buffer bufsize (dir @ ''/'' @ name))
           else snd (snprintf buffer bufsize (dir @ name)))"

subsection \<open>ensure_directory_exists\<close>

text \<open>The result is the return value, the contents of \<open>out_path\<close>, and the world.\<close>

definition ensure_directory_exists ::
  "string \<Rightarrow> string \<Rightarrow> string \<Rightarrow> nat \<Rightarrow> world \<Rightarrow> int \<times> string \<times> world" where
  "ensure_directory_exists base_dir category out_path out_size w =
     (let path = join_path out_path out_size base_dir category in
      case sys_stat w path of
        Some k \<Rightarrow>
          (if k = S_IFDIR then (0, path, w)
           else (- 1, path,
                 logger_log LOG_LEVEL_ERROR (Path_exists_but_is_not_a_directory path) w))
      | None \<Rightarrow>
          (case sys_mkdir path w of
             (rc, w') \<Rightarrow>
               (if rc \<noteq> 0
                then (- 1, path, logger_log LOG_LEVEL_ERROR (Failed_to_create_directory path) w')
                else (0, path, logger_log LOG_LEVEL_INFO (Created_directory path) w'))))"

subsection \<open>build_unique_destination\<close>

text \<open>\<open>%d\<close> of a non-negative \<open>int\<close>.\<close>

fun string_of_nat :: "nat \<Rightarrow> string" where
  "string_of_nat n =
     (if n < 10 then [char_of (48 + n)]
      else string_of_nat (n div 10) @ [char_of (48 + n mod 10)])"

declare string_of_nat.simps [simp del]

text \<open>
  The split of \<open>filename\<close> into the buffers \<open>name\<close> and \<open>ext\<close> (each \<open>PATH_MAX\<close> bytes);
  \<open>ext\<close> keeps its dot.
\<close>

definition split_filename :: "string \<Rightarrow> string \<times> string" where
  "split_filename filename =
     (case strrchr filename (CHR ''.'') of
        None \<Rightarrow> (take (PATH_MAX - 1) filename, [])
      | Some dot \<Rightarrow>
          (if dot = 0 then (take (PATH_MAX - 1) filename, [])
           else
             let base_len = (if dot \<ge> PATH_MAX then PATH_MAX - 1 else dot)
             in (take base_len filename, take (PATH_MAX - 1) (drop dot filename))))"

text \<open>The cast \<open>(int)out_size\<close> of a \<open>size_t\<close> to a 32-bit \<open>int\<close>.\<close>

definition int_of_size :: "nat \<Rightarrow> int" where
  "int_of_size n = sint (word_of_nat n :: 32 word)"

text \<open>
  The loop \<open>for (int i = 1; i < 10000; ++i)\<close>, entered at \<open>i\<close>: the result says whether a
  free name was found, and holds the contents of \<open>out_path\<close>.
\<close>

function suffix_loop ::
  "string \<Rightarrow> string \<Rightarrow> string \<Rightarrow> string \<Rightarrow> nat \<Rightarrow> world \<Rightarrow> nat \<Rightarrow> bool \<times> string" where
  "suffix_loop category_dir name ext out_path out_size w i =
     (if i < 10000 then
        (case snprintf out_path out_size
                (category_dir @ ''/'' @ name @ ''_'' @ string_of_nat i @ ext) of
           (n, out_path') \<Rightarrow>
             (if n \<ge> int_of_size out_size
              then suffix_loop category_dir name ext out_path' out_size w (i + 1)
              else if sys_stat w out_path' = None then (True, out_path')
              else suffix_loop category_dir name ext out_path' out_size w (i + 1)))
      else (False, out_path))"
  by pat_completeness auto
termination
  by (relation "measure (\<lambda>(category_dir, name, ext, out_path, out_size, w, i). 10000 - i)") auto

declare suffix_loop.simps [simp del]

definition build_unique_destination ::
  "string \<Rightarrow> string \<Rightarrow> string \<Rightarrow> nat \<Rightarrow> world \<Rightarrow> int \<times> string \<times> world" where
  "build_unique_destination category_dir filename out_path out_size w =
     (let plain = join_path out_path out_size category_dir filename in
      if sys_stat w plain = None then (0, plain, w)
      else
        (case split_filename filename of
           (name, ext) \<Rightarrow>
             (case suffix_loop category_dir name ext plain out_size w 1 of
                (found, path) \<Rightarrow>
                  (if found then (0, path, w)
                   else (- 1, path,
                         logger_log LOG_LEVEL_ERROR
                           (Could_not_generate_unique_name filename category_dir) w)))))"

subsection \<open>organizer_run\<close>

text \<open>
  The body of the \<open>readdir\<close> loop for the entry \<open>name\<close>, on the world and the variable
  \<open>result\<close>. The buffers \<open>src_path\<close>, \<open>category_dir\<close> and \<open>dst_path\<close> are written
  (\<open>sizeof\<close> is \<open>PATH_MAX\<close>, not 0) before they are read in every iteration, so their
  earlier contents are passed as the empty string.
\<close>

definition scan_entry :: "OrganizerConfig \<Rightarrow> string \<Rightarrow> world \<times> int \<Rightarrow> string \<Rightarrow> world \<times> int" where
  "scan_entry config base_dir st name =
     (case st of (w, result) \<Rightarrow>
       (if name = ''.'' \<or> name = ''..'' then (w, result)
        else
          (let src_path = join_path [] PATH_MAX base_dir name in
           (case sys_stat w src_path of
              None \<Rightarrow> (logger_log LOG_LEVEL_WARN (Skipping_cannot_stat src_path) w, result)
            | Some k \<Rightarrow>
                (if k \<noteq> S_IFREG then
                   ((if verbose config
                     then logger_log LOG_LEVEL_DEBUG (Skipping_non_regular_file src_path) w
                     else w), result)
                 else
                   (let ext = get_extension name;
                        category = category_for_extension ext
                    in
                    (case ensure_directory_exists base_dir category [] PATH_MAX w of
                       (rc1, category_dir, w1) \<Rightarrow>
                         (if rc1 \<noteq> 0 then (w1, 1)
                          else
                            (case build_unique_destination category_dir name [] PATH_MAX w1 of
                               (rc2, dst_path, w2) \<Rightarrow>
                                 (if rc2 \<noteq> 0 then (w2, 1)
                                  else if dry_run config then
                                    (logger_log LOG_LEVEL_INFO
                                       (Dry_run_move src_path dst_path) w2, result)
                                  else
                                    (case sys_rename src_path dst_path w2 of
                                       (rc3, w3) \<Rightarrow>
                                         (if rc3 \<noteq> 0 then
                                            (logger_log LOG_LEVEL_ERROR
                                               (Failed_to_move src_path dst_path) w3, 1)
                                          else
                                            (logger_log LOG_LEVEL_INFO
                                               (Moved src_path dst_path) w3, result)))))))))))))"

text \<open>The loop \<open>while ((entry = readdir(dir)) != NULL)\<close> over the entries delivered.\<close>

fun scan_entries ::
  "OrganizerConfig \<Rightarrow> string \<Rightarrow> string list \<Rightarrow> world \<times> int \<Rightarrow> world \<times> int" where
  "scan_entries config base_dir [] st = st"
| "scan_entries config base_dir (name # rest) st =
     scan_entries config base_dir rest (scan_entry config base_dir st name)"

text \<open>
  \<open>organizer_run\<close>: the argument is \<open>None\<close> for a NULL \<open>config\<close>; the result is the return
  value and the world after the run.
\<close>

definition organizer_run :: "OrganizerConfig option \<Rightarrow> world \<Rightarrow> int \<times> world" where
  "organizer_run config w =
     (case config of
        None \<Rightarrow> (1, logger_log LOG_LEVEL_ERROR Invalid_configuration w)
      | Some cfg \<Rightarrow>
          (case target_dir cfg of
             None \<Rightarrow> (1, logger_log LOG_LEVEL_ERROR Invalid_configuration w)
           | Some base_dir \<Rightarrow>
               (case sys_stat w base_dir of
                  None \<Rightarrow> (1, logger_log LOG_LEVEL_ERROR (Cannot_access_directory base_dir) w)
                | Some k \<Rightarrow>
                    (if k \<noteq> S_IFDIR then
                       (1, logger_log LOG_LEVEL_ERROR (Path_is_not_a_directory base_dir) w)
                     else
                       (case dir_entries w base_dir of
                          None \<Rightarrow>
                            (1, logger_log LOG_LEVEL_ERROR (Failed_to_open_directory base_dir) w)
                        | Some entries \<Rightarrow>
                            (case scan_entries cfg base_dir entries
                                    (logger_log LOG_LEVEL_INFO
                                       (Organizing_files_in base_dir (dry_run cfg)) w, 0) of
                               (w', result) \<Rightarrow> (result, w')))))))"

subsection \<open>Notions used in the statements\<close>

text \<open>
  The join of a directory and a name as a string of any length: what \<open>join_path\<close> writes
  when the buffer is large enough.
\<close>

definition path_join :: "string \<Rightarrow> string \<Rightarrow> string" where
  "path_join dir name =
     (if dir \<noteq> [] \<and> (last dir = CHR ''/'' \<or> last dir = CHR 0x5C) then dir @ name
      else dir @ ''/'' @ name)"

text \<open>The text that the \<open>i\<close>-th iteration of the suffix loop formats.\<close>

definition suffixed :: "string \<Rightarrow> string \<Rightarrow> string \<Rightarrow> nat \<Rightarrow> string" where
  "suffixed category_dir stem ext i =
     category_dir @ ''/'' @ stem @ ''_'' @ string_of_nat i @ ext"

text \<open>
  \<open>k\<close> is the first suffix in 1..9999 whose candidate fits the \<open>PATH_MAX\<close> buffer and
  names nothing that \<open>stat\<close> finds; the loop skips a candidate that does not fit.
\<close>

definition first_free :: "world \<Rightarrow> string \<Rightarrow> string \<Rightarrow> string \<Rightarrow> nat \<Rightarrow> bool" where
  "first_free w category_dir stem ext k \<longleftrightarrow>
     1 \<le> k \<and> k \<le> 9999
     \<and> length (suffixed category_dir stem ext k) < PATH_MAX
     \<and> sys_stat w (suffixed category_dir stem ext k) = None
     \<and> (\<forall>j\<in>{1..<k}. PATH_MAX \<le> length (suffixed category_dir stem ext j)
                      \<or> sys_stat w (suffixed category_dir stem ext j) \<noteq> None)"

text \<open>
  An entry fails when it is a regular file (as \<open>stat\<close> sees it) and provisioning its
  category directory, resolving its destination, or the \<open>rename\<close> itself fails.
\<close>

definition entry_failed :: "OrganizerConfig \<Rightarrow> string \<Rightarrow> world \<Rightarrow> string \<Rightarrow> bool" where
  "entry_failed config base_dir w name =
     (name \<noteq> ''.'' \<and> name \<noteq> ''..''
      \<and> sys_stat w (join_path [] PATH_MAX base_dir name) = Some S_IFREG
      \<and> (case ensure_directory_exists base_dir
                 (category_for_extension (get_extension name)) [] PATH_MAX w of
            (rc1, category_dir, w1) \<Rightarrow>
              rc1 \<noteq> 0
              \<or> (case build_unique_destination category_dir name [] PATH_MAX w1 of
                    (rc2, dst_path, w2) \<Rightarrow>
                      rc2 \<noteq> 0
                      \<or> (\<not> dry_run config
                          \<and> fst (sys_rename (join_path [] PATH_MAX base_dir name)
                                  dst_path w2) \<noteq> 0))))"

text \<open>
  The world in which the \<open>i\<close>-th entry (counted from 0) is visited, in a run of
  \<open>organizer_run\<close> on the world \<open>w\<close> whose validation has passed; for \<open>i\<close> the number of
  entries, the world after the scan.
\<close>

definition world_at :: "OrganizerConfig \<Rightarrow> string \<Rightarrow> string list \<Rightarrow> world \<Rightarrow> nat \<Rightarrow> world" where
  "world_at config base_dir entries w i =
     fst (scan_entries config base_dir (take i entries)
            (logger_log LOG_LEVEL_INFO (Organizing_files_in base_dir (dry_run config)) w, 0))"

subsection \<open>Example worlds and configurations\<close>

text \<open>
  The directory \<open>d\<close> holds one regular file, \<open>a.jpg\<close>, and no subdirectory; \<open>f\<close> is a
  regular file beside it. Nothing is refused, and the logger is at its default level.
\<close>

definition w_demo :: world where
  "w_demo = \<lparr>files = [''d'' \<mapsto> Plain S_IFDIR, ''d/a.jpg'' \<mapsto> Plain S_IFREG, ''f'' \<mapsto> Plain S_IFREG],
     dir_entries = [''d'' \<mapsto> [''.'', ''..'', ''a.jpg'']],
     mkdir_refused = (\<lambda>p. False), rename_refused = (\<lambda>p q. False),
     current_level = LOG_LEVEL_INFO, printed = []\<rparr>"

text \<open>A dry run on \<open>d\<close>.\<close>

definition cfg_dry :: OrganizerConfig where
  "cfg_dry = \<lparr>target_dir = Some ''d'', dry_run = True, verbose = False\<rparr>"

text \<open>A directory path of 4090 bytes: \<open>/a\<close> repeated 2045 times.\<close>

definition long_dir :: string where
  "long_dir = concat (replicate 2045 ''/a'')"

text \<open>
  In \<open>d\<close>, the name \<open>Images\<close> is taken by a FIFO, so the category directory of
  \<open>a.jpg\<close> cannot be provisioned; \<open>b.txt\<close> has no such obstacle.
\<close>

definition w_conflict :: world where
  "w_conflict = \<lparr>files = [''d'' \<mapsto> Plain S_IFDIR, ''d/Images'' \<mapsto> Plain S_IFOTHER,
                          ''d/a.jpg'' \<mapsto> Plain S_IFREG, ''d/b.txt'' \<mapsto> Plain S_IFREG],
     dir_entries = [''d'' \<mapsto> [''.'', ''..'', ''Images'', ''a.jpg'', ''b.txt'']],
     mkdir_refused = (\<lambda>p. False), rename_refused = (\<lambda>p q. False),
     current_level = LOG_LEVEL_INFO, printed = []\<rparr>"


text \<open>
  Every path other than the directories \<open>d\<close> and \<open>d/Documents\<close> names a regular file: no
  destination is free.
\<close>

definition w_full :: world where
  "w_full = \<lparr>files = (\<lambda>p. if p = ''d'' \<or> p = ''d/Documents'' then Some (Plain S_IFDIR)
                            else Some (Plain S_IFREG)),
     dir_entries = [''d'' \<mapsto> [''.'', ''..'', ''report.txt'']],
     mkdir_refused = (\<lambda>p. False), rename_refused = (\<lambda>p q. False),
     current_level = LOG_LEVEL_INFO, printed = []\<rparr>"

text \<open>
  \<open>d/Documents\<close> already holds \<open>report.txt\<close> and \<open>report_1.txt\<close>, and \<open>d\<close> holds another
  \<open>report.txt\<close>.
\<close>

definition w_report :: world where
  "w_report = \<lparr>files = [''d'' \<mapsto> Plain S_IFDIR, ''d/Documents'' \<mapsto> Plain S_IFDIR,
                        ''d/report.txt'' \<mapsto> Plain S_IFREG,
                        ''d/Documents/report.txt'' \<mapsto> Plain S_IFREG,
                        ''d/Documents/report_1.txt'' \<mapsto> Plain S_IFREG],
     dir_entries = [''d'' \<mapsto> [''.'', ''..'', ''Documents'', ''report.txt'']],
     mkdir_refused = (\<lambda>p. False), rename_refused = (\<lambda>p q. False),
     current_level = LOG_LEVEL_INFO, printed = []\<rparr>"

text \<open>A run on \<open>d\<close> that moves files.\<close>

definition cfg_move :: OrganizerConfig where
  "cfg_move = \<lparr>target_dir = Some ''d'', dry_run = False, verbose = False\<rparr>"

text \<open>As \<open>w_report\<close>, with only \<open>report.txt\<close> in \<open>d/Documents\<close>.\<close>

definition w_report1 :: world where
  "w_report1 = \<lparr>files = [''d'' \<mapsto> Plain S_IFDIR, ''d/Documents'' \<mapsto> Plain S_IFDIR,
                        ''d/report.txt'' \<mapsto> Plain S_IFREG,
                        ''d/Documents/report.txt'' \<mapsto> Plain S_IFREG],
     dir_entries = [''d'' \<mapsto> [''.'', ''..'', ''Documents'', ''report.txt'']],
     mkdir_refused = (\<lambda>p. False), rename_refused = (\<lambda>p q. False),
     current_level = LOG_LEVEL_INFO, printed = []\<rparr>"

text \<open>
  A target directory of 4074 bytes (\<open>/a\<close> repeated 2037 times) and its category directory
  \<open>Documents\<close>, 4084 bytes: \<open>report.txt\<close> in it has a path of 4095 bytes, which fits the
  buffer, and no suffixed candidate fits. In \<open>w_tight\<close> both directories exist and each
  holds a \<open>report.txt\<close>.
\<close>

definition base_long :: string where
  "base_long = concat (replicate 2037 ''/a'')"

definition cd_long :: string where
  "cd_long = base_long @ ''/Documents''"

definition w_tight :: world where
  "w_tight = \<lparr>files = (\<lambda>p. if p = base_long \<or> p = cd_long then Some (Plain S_IFDIR)
                            else if p = base_long @ ''/report.txt'' \<or> p = cd_long @ ''/report.txt''
                            then Some (Plain S_IFREG) else None),
     dir_entries = [base_long \<mapsto> [''.'', ''..'', ''Documents'', ''report.txt'']],
     mkdir_refused = (\<lambda>p. False), rename_refused = (\<lambda>p q. False),
     current_level = LOG_LEVEL_INFO, printed = []\<rparr>"

text \<open>In \<open>d\<close>, \<open>link.txt\<close> is a symbolic link to a regular file outside \<open>d\<close>.\<close>

definition w_link :: world where
  "w_link = \<lparr>files = [''d'' \<mapsto> Plain S_IFDIR, ''d/link.txt'' \<mapsto> Symlink (Some S_IFREG)],
     dir_entries = [''d'' \<mapsto> [''.'', ''..'', ''link.txt'']],
     mkdir_refused = (\<lambda>p. False), rename_refused = (\<lambda>p q. False),
     current_level = LOG_LEVEL_INFO, printed = []\<rparr>"


section \<open>Properties of the extension classifier\<close>

lemma strrchr_None: "strrchr s c = None \<longleftrightarrow> c \<notin> set s"
  by (induction s) (auto split: option.splits)

lemma strrchr_append: "c \<notin> set e \<Longrightarrow> strrchr (stem @ c # e) c = Some (length stem)"
  by (induction stem) (auto simp: strrchr_None split: option.splits)

lemma get_extension_split:
  "CHR ''.'' \<notin> set e \<Longrightarrow>
   get_extension (stem @ CHR ''.'' # e) = (if stem = [] then None else Some e)"
  by (simp add: get_extension_def strrchr_append)

lemma get_extension_nodot:
  "CHR ''.'' \<notin> set name \<Longrightarrow> get_extension name = None"
  by (simp add: get_extension_def strrchr_None[THEN iffD2])

lemma table_search_hit:
  "distinct (map fst T) \<Longrightarrow> (k, v) \<in> set T \<Longrightarrow> table_search T k = v"
  by (induction T k rule: table_search.induct) (auto simp: rev_image_eqI)

lemma table_search_miss:
  "k \<notin> fst ` set T \<Longrightarrow> table_search T k = DEFAULT_CATEGORY"
  by (induction T k rule: table_search.induct) auto

lemma EXTENSION_TABLE_distinct: "distinct (map fst EXTENSION_TABLE)"
  by (simp add: EXTENSION_TABLE_def)

lemma EXTENSION_TABLE_key_length:
  "(k, v) \<in> set EXTENSION_TABLE \<Longrightarrow> 0 < length k \<and> length k < 64"
  by (auto simp: EXTENSION_TABLE_def)

lemma length_to_lowercase: "length (to_lowercase s) = length s"
  by (simp add: to_lowercase_def)

lemma category_known:
  assumes "(to_lowercase e, cat) \<in> set EXTENSION_TABLE"
  shows "category_for_extension (Some e) = cat"
proof -
  from EXTENSION_TABLE_key_length[OF assms]
  have "0 < length e" "length e < 64" by (simp_all add: length_to_lowercase)
  then show ?thesis
    using table_search_hit[OF EXTENSION_TABLE_distinct assms]
    by (simp add: category_for_extension_def)
qed

lemma category_unknown:
  assumes "e = [] \<or> 64 \<le> length e \<or> to_lowercase e \<notin> fst ` set EXTENSION_TABLE"
  shows "category_for_extension (Some e) = ''Other''"
  using assms table_search_miss[of "to_lowercase e" EXTENSION_TABLE]
  by (auto simp: category_for_extension_def DEFAULT_CATEGORY_def)

text \<open>
  Claim C2. A file name \<open>stem.e\<close> with a non-empty stem and no dot in \<open>e\<close> has the extension
  \<open>e\<close>; whenever the ASCII-lowercased \<open>e\<close> is a key of the table, the classifier returns that
  entry's category. A name without any dot, a name whose only dot is its first character,
  and a name whose extension is empty, 64 bytes or longer, or not a key of the table, are
  all classified as "Other".
\<close>

theorem category_for_extension_correct:
  "(\<forall>stem e cat. stem \<noteq> [] \<and> CHR ''.'' \<notin> set e \<and> (to_lowercase e, cat) \<in> set EXTENSION_TABLE
       \<longrightarrow> category_for_extension (get_extension (stem @ ''.'' @ e)) = cat)
   \<and> (\<forall>name. CHR ''.'' \<notin> set name
       \<longrightarrow> category_for_extension (get_extension name) = ''Other'')
   \<and> (\<forall>e. CHR ''.'' \<notin> set e
       \<longrightarrow> category_for_extension (get_extension (''.'' @ e)) = ''Other'')
   \<and> (\<forall>stem e. stem \<noteq> [] \<and> CHR ''.'' \<notin> set e
         \<and> (e = [] \<or> 64 \<le> length e \<or> to_lowercase e \<notin> fst ` set EXTENSION_TABLE)
       \<longrightarrow> category_for_extension (get_extension (stem @ ''.'' @ e)) = ''Other'')"
proof (intro conjI allI impI)
  fix stem e cat :: string
  assume "stem \<noteq> [] \<and> CHR ''.'' \<notin> set e \<and> (to_lowercase e, cat) \<in> set EXTENSION_TABLE"
  then show "category_for_extension (get_extension (stem @ ''.'' @ e)) = cat"
    by (simp add: get_extension_split category_known)
next
  fix name :: string
  assume "CHR ''.'' \<notin> set name"
  then show "category_for_extension (get_extension name) = ''Other''"
    by (simp add: get_extension_nodot category_for_extension_def DEFAULT_CATEGORY_def)
next
  fix e :: string
  assume "CHR ''.'' \<notin> set e"
  then show "category_for_extension (get_extension (''.'' @ e)) = ''Other''"
    using get_extension_split[of e "[]"]
    by (simp add: category_for_extension_def DEFAULT_CATEGORY_def)
next
  fix stem e :: string
  assume "stem \<noteq> [] \<and> CHR ''.'' \<notin> set e
         \<and> (e = [] \<or> 64 \<le> length e \<or> to_lowercase e \<notin> fst ` set EXTENSION_TABLE)"
  then show "category_for_extension (get_extension (stem @ ''.'' @ e)) = ''Other''"
    by (simp add: get_extension_split category_unknown)
qed

lemma to_lowercase_JPG: "to_lowercase ''JPG'' = ''jpg''"
  by (simp add: to_lowercase_def lower_char_def char_of_def bit_Suc_0_iff)

theorem category_for_extension_correct_witness:
  "category_for_extension (get_extension ''photo.JPG'') = ''Images''
   \<and> category_for_extension (get_extension ''notes.txt'') = ''Documents''
   \<and> category_for_extension (get_extension ''Makefile'') = ''Other''
   \<and> category_for_extension (get_extension ''.bashrc'') = ''Other''
   \<and> category_for_extension (get_extension ''data.xyz'') = ''Other''
   \<and> category_for_extension (get_extension ''trailing.'') = ''Other''"
proof -
  note T = category_for_extension_correct
  have a: "category_for_extension (get_extension ''photo.JPG'') = ''Images''"
    using T[THEN conjunct1, rule_format, of "''photo''" "''JPG''" "''Images''"]
    by (simp add: to_lowercase_JPG EXTENSION_TABLE_def)
  have b: "category_for_extension (get_extension ''notes.txt'') = ''Documents''"
    using T[THEN conjunct1, rule_format, of "''notes''" "''txt''" "''Documents''"]
    by (simp add: to_lowercase_def lower_char_def EXTENSION_TABLE_def)
  have c: "category_for_extension (get_extension ''Makefile'') = ''Other''"
    using T[THEN conjunct2, THEN conjunct1, rule_format, of "''Makefile''"] by simp
  have d: "category_for_extension (get_extension ''.bashrc'') = ''Other''"
    using T[THEN conjunct2, THEN conjunct2, THEN conjunct1, rule_format, of "''bashrc''"] by simp
  have e: "category_for_extension (get_extension ''data.xyz'') = ''Other''"
    using T[THEN conjunct2, THEN conjunct2, THEN conjunct2, rule_format, of "''data''" "''xyz''"]
    by (simp add: to_lowercase_def lower_char_def EXTENSION_TABLE_def)
  have f: "category_for_extension (get_extension ''trailing.'') = ''Other''"
    using T[THEN conjunct2, THEN conjunct2, THEN conjunct2, rule_format, of "''trailing''" "''''"]
    by simp
  from a b c d e f show ?thesis by simp
qed

section \<open>Properties of the organizer\<close>

subsection \<open>Logger and return value\<close>

lemma logger_log_frame [simp]:
  "files (logger_log l m w) = files w"
  "dir_entries (logger_log l m w) = dir_entries w"
  "mkdir_refused (logger_log l m w) = mkdir_refused w"
  "rename_refused (logger_log l m w) = rename_refused w"
  "current_level (logger_log l m w) = current_level w"
  by (simp_all add: logger_log_def)

lemma sys_stat_logger_log [simp]: "sys_stat (logger_log l m w) p = sys_stat w p"
  by (simp add: sys_stat_def)

lemma logger_log_error:
  "logger_log LOG_LEVEL_ERROR m w = w\<lparr>printed := printed w @ [(LOG_LEVEL_ERROR, m)]\<rparr>"
  by (simp add: logger_log_def)

lemma scan_entry_result:
  "snd (scan_entry cfg base (w, r) name) = (if entry_failed cfg base w name then 1 else r)"
  by (simp add: scan_entry_def entry_failed_def Let_def split: option.splits prod.splits)

lemma scan_entries_result:
  "r = 0 \<or> r = 1 \<Longrightarrow> snd (scan_entries cfg base es (w, r)) = 0 \<or> snd (scan_entries cfg base es (w, r)) = 1"
proof (induction es arbitrary: w r)
  case Nil
  then show ?case by simp
next
  case (Cons name es)
  obtain w' r' where st: "scan_entry cfg base (w, r) name = (w', r')"
    by (cases "scan_entry cfg base (w, r) name")
  with scan_entry_result[of cfg base w r name] Cons.prems have "r' = 0 \<or> r' = 1"
    by (auto split: if_splits)
  from Cons.IH[OF this, of w'] st show ?case by simp
qed

lemma organizer_run_0_or_1:
  "fst (organizer_run config w) = 0 \<or> fst (organizer_run config w) = 1"
proof -
  have "snd (scan_entries cfg base es (w0, 0)) = 0 \<or> snd (scan_entries cfg base es (w0, 0)) = 1"
    for cfg base es w0
    by (rule scan_entries_result) simp
  then have h: "scan_entries cfg base es (w0, 0) = (w', r) \<Longrightarrow> r = 0 \<or> r = 1"
    for cfg base es w0 w' r
    by (metis snd_conv)
  show ?thesis
    by (auto simp add: organizer_run_def split: option.splits prod.splits dest: h)
qed

text \<open>
  Claim C10. \<open>organizer_run\<close> returns 0 or 1 and nothing else: a NULL configuration, a
  NULL target, a target that \<open>stat\<close> does not report as a directory and a failing
  \<open>opendir\<close> each return 1, and one iteration of the scan leaves \<open>result\<close> as it was
  unless the entry failed, in which case it sets it to 1 whatever the kind of failure.
\<close>

theorem organizer_run_returns_0_or_1:
  "(fst (organizer_run config w) = 0 \<or> fst (organizer_run config w) = 1)
   \<and> fst (organizer_run None w) = 1
   \<and> (target_dir cfg = None \<longrightarrow> fst (organizer_run (Some cfg) w) = 1)
   \<and> (target_dir cfg = Some base
        \<and> (sys_stat w base \<noteq> Some S_IFDIR \<or> dir_entries w base = None)
       \<longrightarrow> fst (organizer_run (Some cfg) w) = 1)
   \<and> snd (scan_entry cfg base (w, r) name) = (if entry_failed cfg base w name then 1 else r)"
proof (intro conjI impI)
  show "fst (organizer_run config w) = 0 \<or> fst (organizer_run config w) = 1"
    by (rule organizer_run_0_or_1)
  show "fst (organizer_run None w) = 1"
    by (simp add: organizer_run_def)
  show "fst (organizer_run (Some cfg) w) = 1" if "target_dir cfg = None"
    using that by (simp add: organizer_run_def)
  show "fst (organizer_run (Some cfg) w) = 1"
    if "target_dir cfg = Some base
        \<and> (sys_stat w base \<noteq> Some S_IFDIR \<or> dir_entries w base = None)"
    using that by (auto simp add: organizer_run_def split: option.splits)
  show "snd (scan_entry cfg base (w, r) name) = (if entry_failed cfg base w name then 1 else r)"
    by (rule scan_entry_result)
qed

text \<open>
  Claim C8. With a NULL configuration or target, a target that \<open>stat\<close> cannot find, or
  a target that is not a directory, \<open>organizer_run\<close> returns 1 and leaves the world as
  it was except for one ERROR line: no entry was read or classified, no directory
  created, no file moved.
\<close>

theorem organizer_run_validation_abort:
  "organizer_run None w = (1, w\<lparr>printed := printed w @ [(LOG_LEVEL_ERROR, Invalid_configuration)]\<rparr>)
   \<and> (target_dir cfg = None \<longrightarrow>
        organizer_run (Some cfg) w
          = (1, w\<lparr>printed := printed w @ [(LOG_LEVEL_ERROR, Invalid_configuration)]\<rparr>))
   \<and> (target_dir cfg = Some base \<and> sys_stat w base = None \<longrightarrow>
        organizer_run (Some cfg) w
          = (1, w\<lparr>printed := printed w @ [(LOG_LEVEL_ERROR, Cannot_access_directory base)]\<rparr>))
   \<and> (target_dir cfg = Some base \<and> sys_stat w base = Some k \<and> k \<noteq> S_IFDIR \<longrightarrow>
        organizer_run (Some cfg) w
          = (1, w\<lparr>printed := printed w @ [(LOG_LEVEL_ERROR, Path_is_not_a_directory base)]\<rparr>))"
  by (simp add: organizer_run_def logger_log_error)

theorem organizer_run_validation_abort_witness:
  "organizer_run (Some \<lparr>target_dir = None, dry_run = False, verbose = False\<rparr>) w_demo
     = (1, w_demo\<lparr>printed := [(LOG_LEVEL_ERROR, Invalid_configuration)]\<rparr>)
   \<and> organizer_run (Some \<lparr>target_dir = Some ''missing'', dry_run = False, verbose = False\<rparr>) w_demo
     = (1, w_demo\<lparr>printed := [(LOG_LEVEL_ERROR, Cannot_access_directory ''missing'')]\<rparr>)
   \<and> organizer_run (Some \<lparr>target_dir = Some ''f'', dry_run = False, verbose = False\<rparr>) w_demo
     = (1, w_demo\<lparr>printed := [(LOG_LEVEL_ERROR, Path_is_not_a_directory ''f'')]\<rparr>)"
proof -
  note T = organizer_run_validation_abort
  have a: "organizer_run (Some \<lparr>target_dir = None, dry_run = False, verbose = False\<rparr>) w_demo
     = (1, w_demo\<lparr>printed := [(LOG_LEVEL_ERROR, Invalid_configuration)]\<rparr>)"
    using T[of w_demo "\<lparr>target_dir = None, dry_run = False, verbose = False\<rparr>"]
    by (simp add: w_demo_def)
  have b: "organizer_run (Some \<lparr>target_dir = Some ''missing'', dry_run = False, verbose = False\<rparr>) w_demo
     = (1, w_demo\<lparr>printed := [(LOG_LEVEL_ERROR, Cannot_access_directory ''missing'')]\<rparr>)"
    using T[of w_demo "\<lparr>target_dir = Some ''missing'', dry_run = False, verbose = False\<rparr>" "''missing''"]
    by (simp add: w_demo_def sys_stat_def)
  have c: "organizer_run (Some \<lparr>target_dir = Some ''f'', dry_run = False, verbose = False\<rparr>) w_demo
     = (1, w_demo\<lparr>printed := [(LOG_LEVEL_ERROR, Path_is_not_a_directory ''f'')]\<rparr>)"
    using T[of w_demo "\<lparr>target_dir = Some ''f'', dry_run = False, verbose = False\<rparr>" "''f''" S_IFREG]
    by (simp add: w_demo_def sys_stat_def)
  from a b c show ?thesis by simp
qed

theorem organizer_run_returns_0_or_1_witness:
  "fst (organizer_run (Some \<lparr>target_dir = None, dry_run = False, verbose = False\<rparr>) w_demo) = 1
   \<and> fst (organizer_run (Some \<lparr>target_dir = Some ''f'', dry_run = False, verbose = False\<rparr>)
          w_demo) = 1"
proof -
  note T = organizer_run_returns_0_or_1
  have a: "fst (organizer_run (Some \<lparr>target_dir = None, dry_run = False, verbose = False\<rparr>) w_demo) = 1"
    using T[where cfg = "\<lparr>target_dir = None, dry_run = False, verbose = False\<rparr>" and w = w_demo]
    by simp
  have b: "fst (organizer_run (Some \<lparr>target_dir = Some ''f'', dry_run = False, verbose = False\<rparr>)
          w_demo) = 1"
    using T[where cfg = "\<lparr>target_dir = Some ''f'', dry_run = False, verbose = False\<rparr>"
        and w = w_demo and base = "''f''"]
    by (simp add: sys_stat_def w_demo_def)
  from a b show ?thesis by simp
qed

subsection \<open>join_path and the dry run\<close>

lemma join_path_fits:
  assumes "length (path_join dir name) < bufsize"
  shows "join_path buffer bufsize dir name = path_join dir name"
proof -
  have "dir \<noteq> [] \<Longrightarrow> dir ! (length dir - 1) = last dir"
    by (simp add: last_conv_nth)
  with assms show ?thesis
    by (auto simp add: join_path_def path_join_def snprintf_def Let_def)
qed

lemma join_path_truncates:
  "0 < bufsize \<Longrightarrow> join_path buffer bufsize dir name = take (bufsize - 1) (path_join dir name)"
proof -
  assume "0 < bufsize"
  moreover have "dir \<noteq> [] \<Longrightarrow> dir ! (length dir - 1) = last dir"
    by (simp add: last_conv_nth)
  ultimately show ?thesis
    by (auto simp add: join_path_def path_join_def snprintf_def Let_def)
qed

lemma join_d_ajpg: "join_path b PATH_MAX ''d'' ''a.jpg'' = ''d/a.jpg''"
  by (simp add: join_path_fits path_join_def PATH_MAX_def)

lemma cat_ajpg: "category_for_extension (get_extension ''a.jpg'') = ''Images''"
  by (simp add: category_for_extension_def get_extension_def to_lowercase_def lower_char_def EXTENSION_TABLE_def)

lemma join_d_Images: "join_path b PATH_MAX ''d'' ''Images'' = ''d/Images''"
  by (simp add: join_path_fits path_join_def PATH_MAX_def)

lemma join_dImages_ajpg: "join_path b PATH_MAX ''d/Images'' ''a.jpg'' = ''d/Images/a.jpg''"
  by (simp add: join_path_fits path_join_def PATH_MAX_def)

text \<open>
  Claim C1, at a concrete input. The directory \<open>d\<close> holds the regular file \<open>a.jpg\<close> and
  no \<open>Images\<close>. A dry run returns 0 and logs the planned move, and the file stays where
  it was, but the run has created the directory \<open>d/Images\<close>: the file system after the
  run is not the one before.
\<close>

theorem organizer_run_dry_run_creates_directory:
  "organizer_run (Some cfg_dry) w_demo
     = (0, w_demo\<lparr>files := (files w_demo)(''d/Images'' \<mapsto> Plain S_IFDIR),
                  printed := [(LOG_LEVEL_INFO, Organizing_files_in ''d'' True),
                              (LOG_LEVEL_INFO, Created_directory ''d/Images''),
                              (LOG_LEVEL_INFO, Dry_run_move ''d/a.jpg'' ''d/Images/a.jpg'')]\<rparr>)
   \<and> files w_demo ''d/Images'' = None"
  by (simp add: organizer_run_def cfg_dry_def w_demo_def sys_stat_def scan_entry_def
      join_d_ajpg cat_ajpg join_d_Images join_dImages_ajpg ensure_directory_exists_def
      build_unique_destination_def sys_mkdir_def logger_log_def Let_def)

subsection \<open>ensure_directory_exists\<close>




lemma length_concat_replicate: "length (concat (replicate n xs)) = n * length xs"
  by (induction n) auto

lemma last_concat_replicate: "xs \<noteq> [] \<Longrightarrow> last (concat (replicate (Suc n) xs)) = last xs"
  by (induction n) auto

lemma length_long_dir: "length long_dir = 4090"
  by (simp add: long_dir_def length_concat_replicate)

lemma last_long_dir: "last long_dir = CHR ''a''"
proof -
  have "last (concat (replicate (Suc 2044) ''/a'')) = last ''/a''"
    by (rule last_concat_replicate) simp
  then show ?thesis by (simp add: long_dir_def)
qed

lemma long_dir_nonempty: "long_dir \<noteq> []"
  using length_long_dir by auto

text \<open>
  Claim C6, at a concrete input. \<open>long_dir\<close> is 4090 bytes long, so the joined path of
  \<open>long_dir\<close> and \<open>report.txt\<close> needs 4101 bytes. \<open>join_path\<close> with the \<open>PATH_MAX\<close>
  buffer writes the first 4095 of them, ending in \<open>/repo\<close>, and has no way to tell its
  caller (it returns nothing).
\<close>

theorem join_path_silently_truncates:
  "join_path [] PATH_MAX long_dir ''report.txt'' = long_dir @ ''/repo''
   \<and> path_join long_dir ''report.txt'' = long_dir @ ''/report.txt''"
  by (simp add: join_path_truncates path_join_def PATH_MAX_def last_long_dir
      long_dir_nonempty length_long_dir)



subsection \<open>build_unique_destination\<close>

lemma int_of_size_PATH_MAX: "int_of_size PATH_MAX = 4096"
  by (simp add: int_of_size_def PATH_MAX_def)

lemma suffix_loop_step:
  "i < 10000 \<Longrightarrow>
   suffix_loop cd stem ext p PATH_MAX w i =
     (if PATH_MAX \<le> length (suffixed cd stem ext i)
      then suffix_loop cd stem ext (take (PATH_MAX - 1) (suffixed cd stem ext i)) PATH_MAX w (i + 1)
      else if sys_stat w (suffixed cd stem ext i) = None then (True, suffixed cd stem ext i)
      else suffix_loop cd stem ext (suffixed cd stem ext i) PATH_MAX w (i + 1))"
  apply (subst suffix_loop.simps)
  apply (simp add: snprintf_def int_of_size_PATH_MAX suffixed_def)
  apply (simp add: PATH_MAX_def)
  done

lemma suffix_loop_stop:
  "10000 \<le> i \<Longrightarrow> suffix_loop cd stem ext p sz w i = (False, p)"
  by (subst suffix_loop.simps) simp

lemma suffix_loop_exhausted:
  assumes "\<forall>j. i \<le> j \<and> j < 10000 \<longrightarrow>
             PATH_MAX \<le> length (suffixed cd stem ext j) \<or> sys_stat w (suffixed cd stem ext j) \<noteq> None"
  shows "fst (suffix_loop cd stem ext p PATH_MAX w i) = False"
  using assms
proof (induction "10000 - i" arbitrary: i p)
  case 0
  then show ?case by (simp add: suffix_loop_stop)
next
  case (Suc n)
  then have i: "i < 10000" by simp
  have rest: "\<forall>j. i + 1 \<le> j \<and> j < 10000 \<longrightarrow>
             PATH_MAX \<le> length (suffixed cd stem ext j) \<or> sys_stat w (suffixed cd stem ext j) \<noteq> None"
    using Suc.prems by simp
  have n: "n = 10000 - (i + 1)" using Suc.hyps(2) by simp
  have here: "PATH_MAX \<le> length (suffixed cd stem ext i) \<or> sys_stat w (suffixed cd stem ext i) \<noteq> None"
    using Suc.prems i by simp
  show ?case
    using here Suc.hyps(1)[OF n rest]
    by (auto simp add: suffix_loop_step[OF i])
qed

lemma suffix_loop_found:
  assumes "i \<le> k" "k < 10000"
    and "length (suffixed cd stem ext k) < PATH_MAX"
    and "sys_stat w (suffixed cd stem ext k) = None"
    and "\<forall>j. i \<le> j \<and> j < k \<longrightarrow>
             PATH_MAX \<le> length (suffixed cd stem ext j) \<or> sys_stat w (suffixed cd stem ext j) \<noteq> None"
  shows "suffix_loop cd stem ext p PATH_MAX w i = (True, suffixed cd stem ext k)"
  using assms
proof (induction "k - i" arbitrary: i p)
  case 0
  then have "i = k" by simp
  with 0 show ?case
    by (simp add: suffix_loop_step)
next
  case (Suc n)
  then have i: "i < 10000" "i < k" by simp_all
  have n: "n = k - (i + 1)" using Suc.hyps(2) by simp
  have rest: "\<forall>j. i + 1 \<le> j \<and> j < k \<longrightarrow>
             PATH_MAX \<le> length (suffixed cd stem ext j) \<or> sys_stat w (suffixed cd stem ext j) \<noteq> None"
    using Suc.prems by simp
  have here: "PATH_MAX \<le> length (suffixed cd stem ext i) \<or> sys_stat w (suffixed cd stem ext i) \<noteq> None"
    using Suc.prems i by simp
  have le: "i + 1 \<le> k" using i by simp
  note IH = Suc.hyps(1)[OF n le Suc.prems(2) Suc.prems(3) Suc.prems(4) rest]
  show ?case
    using here IH
    by (auto simp add: suffix_loop_step[OF i(1)])
qed

lemma split_filename_ext:
  assumes "stem \<noteq> []" "CHR ''.'' \<notin> set e" "length (stem @ ''.'' @ e) < PATH_MAX"
  shows "split_filename (stem @ ''.'' @ e) = (stem, ''.'' @ e)"
  using assms by (simp add: split_filename_def strrchr_append)

lemma split_filename_noext:
  assumes "CHR ''.'' \<notin> set filename \<or> (\<exists>e. filename = ''.'' @ e \<and> CHR ''.'' \<notin> set e)"
    and "length filename < PATH_MAX"
  shows "split_filename filename = (filename, [])"
proof -
  from assms(1) have "strrchr filename (CHR ''.'') = None \<or> strrchr filename (CHR ''.'') = Some 0"
    using strrchr_append[of "CHR ''.''" _ "[]"] by (auto simp: strrchr_None)
  with assms(2) show ?thesis
    by (auto simp add: split_filename_def)
qed

lemma length_path_join: "length name \<le> length (path_join dir name)"
  by (simp add: path_join_def)

lemma build_unique_destination_plain:
  assumes "length (path_join cd fn) < PATH_MAX" "sys_stat w (path_join cd fn) = None"
  shows "build_unique_destination cd fn out_path PATH_MAX w = (0, path_join cd fn, w)"
  using assms by (simp add: build_unique_destination_def join_path_fits)

lemma build_unique_destination_suffixed:
  assumes "length (path_join cd fn) < PATH_MAX" "sys_stat w (path_join cd fn) \<noteq> None"
    and "split_filename fn = (stem, ext)"
    and "1 \<le> k" "k \<le> 9999"
    and "length (suffixed cd stem ext k) < PATH_MAX"
    and "sys_stat w (suffixed cd stem ext k) = None"
    and "\<forall>j. 1 \<le> j \<and> j < k \<longrightarrow>
             PATH_MAX \<le> length (suffixed cd stem ext j) \<or> sys_stat w (suffixed cd stem ext j) \<noteq> None"
  shows "build_unique_destination cd fn out_path PATH_MAX w = (0, suffixed cd stem ext k, w)"
proof -
  have "suffix_loop cd stem ext (path_join cd fn) PATH_MAX w 1 = (True, suffixed cd stem ext k)"
    by (rule suffix_loop_found) (use assms in simp_all)
  with assms(1,2,3) show ?thesis
    by (auto simp add: build_unique_destination_def join_path_fits Let_def simp del: One_nat_def)
qed

lemma build_unique_destination_fail:
  assumes "sys_stat w (join_path out_path PATH_MAX cd fn) \<noteq> None"
    and "split_filename fn = (stem, ext)"
    and "\<forall>j. 1 \<le> j \<and> j < 10000 \<longrightarrow>
             PATH_MAX \<le> length (suffixed cd stem ext j) \<or> sys_stat w (suffixed cd stem ext j) \<noteq> None"
  shows "\<exists>path. build_unique_destination cd fn out_path PATH_MAX w
     = (- 1, path, w\<lparr>printed := printed w @ [(LOG_LEVEL_ERROR, Could_not_generate_unique_name fn cd)]\<rparr>)"
proof -
  have "fst (suffix_loop cd stem ext (join_path out_path PATH_MAX cd fn) PATH_MAX w 1) = False"
    by (rule suffix_loop_exhausted) (use assms(3) in simp)
  then obtain path where "suffix_loop cd stem ext (join_path out_path PATH_MAX cd fn) PATH_MAX w 1 = (False, path)"
    by (cases "suffix_loop cd stem ext (join_path out_path PATH_MAX cd fn) PATH_MAX w 1") simp
  with assms(1,2) show ?thesis
    by (auto simp add: build_unique_destination_def logger_log_error Let_def simp del: One_nat_def)
qed

lemma string_of_nat_digit: "n < 10 \<Longrightarrow> string_of_nat n = [char_of (48 + n)]"
  by (subst string_of_nat.simps) simp

lemma string_of_nat_1: "string_of_nat (Suc 0) = ''1''"
  by (simp add: string_of_nat_digit char_of_def bit_Suc_0_iff)

lemma string_of_nat_2: "string_of_nat 2 = ''2''"
  by (simp add: string_of_nat_digit char_of_def bit_Suc_0_iff)

lemma string_of_nat_nonempty: "string_of_nat n \<noteq> []"
  by (subst string_of_nat.simps) simp

lemma length_string_of_nat: "1 \<le> length (string_of_nat n)"
  using string_of_nat_nonempty[of n] by (cases "string_of_nat n") simp_all

lemma split_report: "split_filename ''report.txt'' = (''report'', ''.txt'')"
  using split_filename_ext[of "''report''" "''txt''"] by (simp add: PATH_MAX_def)

lemma cat_report: "category_for_extension (get_extension ''report.txt'') = ''Documents''"
  by (simp add: category_for_extension_def get_extension_def to_lowercase_def lower_char_def EXTENSION_TABLE_def)

text \<open>
  Claim C7. When the plain destination is taken and every suffix from 1 to 9999 gives a
  candidate that does not fit the buffer or that \<open>stat\<close> finds, the resolver returns -1
  and prints the "could not generate unique name" ERROR line. In the scan, such an entry
  ends with \<open>result = 1\<close> and the world as provisioning left it plus that line: nothing
  is renamed. The loop is total (its termination is proved with the measure
  \<open>10000 - i\<close>), and entered at 10000 it returns at once.
\<close>

theorem build_unique_destination_exhausted:
  "(sys_stat w (join_path out_path PATH_MAX category_dir filename) \<noteq> None
      \<and> split_filename filename = (stem, ext)
      \<and> (\<forall>i\<in>{1..9999}. PATH_MAX \<le> length (suffixed category_dir stem ext i)
                          \<or> sys_stat w (suffixed category_dir stem ext i) \<noteq> None)
    \<longrightarrow> (\<exists>path. build_unique_destination category_dir filename out_path PATH_MAX w
                 = (- 1, path,
                    w\<lparr>printed := printed w @
                         [(LOG_LEVEL_ERROR,
                           Could_not_generate_unique_name filename category_dir)]\<rparr>)))
   \<and> (filename \<noteq> ''.'' \<and> filename \<noteq> ''..''
      \<and> sys_stat w0 (join_path [] PATH_MAX base_dir filename) = Some S_IFREG
      \<and> ensure_directory_exists base_dir (category_for_extension (get_extension filename))
            [] PATH_MAX w0 = (0, category_dir, w)
      \<and> sys_stat w (join_path [] PATH_MAX category_dir filename) \<noteq> None
      \<and> split_filename filename = (stem, ext)
      \<and> (\<forall>i\<in>{1..9999}. PATH_MAX \<le> length (suffixed category_dir stem ext i)
                          \<or> sys_stat w (suffixed category_dir stem ext i) \<noteq> None)
    \<longrightarrow> scan_entry config base_dir (w0, result) filename
          = (w\<lparr>printed := printed w @
                  [(LOG_LEVEL_ERROR,
                    Could_not_generate_unique_name filename category_dir)]\<rparr>, 1))
   \<and> suffix_loop category_dir stem ext out_path out_size w 10000 = (False, out_path)"
proof (intro conjI impI)
  show "suffix_loop category_dir stem ext out_path out_size w 10000 = (False, out_path)"
    by (simp add: suffix_loop_stop)
next
  assume h: "sys_stat w (join_path out_path PATH_MAX category_dir filename) \<noteq> None
      \<and> split_filename filename = (stem, ext)
      \<and> (\<forall>i\<in>{1..9999}. PATH_MAX \<le> length (suffixed category_dir stem ext i)
                          \<or> sys_stat w (suffixed category_dir stem ext i) \<noteq> None)"
  show "\<exists>path. build_unique_destination category_dir filename out_path PATH_MAX w
                 = (- 1, path,
                    w\<lparr>printed := printed w @
                         [(LOG_LEVEL_ERROR,
                           Could_not_generate_unique_name filename category_dir)]\<rparr>)"
    by (rule build_unique_destination_fail[of w out_path category_dir filename stem ext])
       (use h in auto)
next
  assume h: "filename \<noteq> ''.'' \<and> filename \<noteq> ''..''
      \<and> sys_stat w0 (join_path [] PATH_MAX base_dir filename) = Some S_IFREG
      \<and> ensure_directory_exists base_dir (category_for_extension (get_extension filename))
            [] PATH_MAX w0 = (0, category_dir, w)
      \<and> sys_stat w (join_path [] PATH_MAX category_dir filename) \<noteq> None
      \<and> split_filename filename = (stem, ext)
      \<and> (\<forall>i\<in>{1..9999}. PATH_MAX \<le> length (suffixed category_dir stem ext i)
                          \<or> sys_stat w (suffixed category_dir stem ext i) \<noteq> None)"
  have "\<exists>path. build_unique_destination category_dir filename [] PATH_MAX w
                 = (- 1, path,
                    w\<lparr>printed := printed w @
                         [(LOG_LEVEL_ERROR,
                           Could_not_generate_unique_name filename category_dir)]\<rparr>)"
    by (rule build_unique_destination_fail[of w "[]" category_dir filename stem ext])
       (use h in auto)
  then obtain path where "build_unique_destination category_dir filename [] PATH_MAX w
                 = (- 1, path,
                    w\<lparr>printed := printed w @
                         [(LOG_LEVEL_ERROR,
                           Could_not_generate_unique_name filename category_dir)]\<rparr>)"
    by blast
  with h show "scan_entry config base_dir (w0, result) filename
          = (w\<lparr>printed := printed w @
                  [(LOG_LEVEL_ERROR,
                    Could_not_generate_unique_name filename category_dir)]\<rparr>, 1)"
    by (simp add: scan_entry_def Let_def)
qed

lemma join_d_report: "join_path b PATH_MAX ''d'' ''report.txt'' = ''d/report.txt''"
  by (simp add: join_path_fits path_join_def PATH_MAX_def)

lemma join_d_Documents: "join_path b PATH_MAX ''d'' ''Documents'' = ''d/Documents''"
  by (simp add: join_path_fits path_join_def PATH_MAX_def)

lemma join_dDocuments_report:
  "join_path b PATH_MAX ''d/Documents'' ''report.txt'' = ''d/Documents/report.txt''"
  by (simp add: join_path_fits path_join_def PATH_MAX_def)

lemma sys_stat_w_full: "sys_stat w_full p \<noteq> None"
  by (simp add: sys_stat_def w_full_def)

theorem build_unique_destination_exhausted_witness:
  "scan_entry cfg_move ''d'' (w_full, 0) ''report.txt''
     = (w_full\<lparr>printed := [(LOG_LEVEL_ERROR,
                    Could_not_generate_unique_name ''report.txt'' ''d/Documents'')]\<rparr>, 1)"
proof -
  have e: "ensure_directory_exists ''d'' ''Documents'' [] PATH_MAX w_full = (0, ''d/Documents'', w_full)"
    by (simp add: ensure_directory_exists_def join_d_Documents sys_stat_def w_full_def Let_def)
  have s: "sys_stat w_full ''d/report.txt'' = Some S_IFREG"
    by (simp add: sys_stat_def w_full_def)
  have p: "printed w_full = []" by (simp add: w_full_def)
  show ?thesis
    using build_unique_destination_exhausted[where w = w_full and category_dir = "''d/Documents''"
        and filename = "''report.txt''" and stem = "''report''" and ext = "''.txt''"
        and ?w0.0 = w_full and base_dir = "''d''" and config = cfg_move and result = 0,
        THEN conjunct2, THEN conjunct1]
    by (simp add: e s p split_report cat_report join_d_report sys_stat_w_full)
qed

text \<open>
  Claim C3, amended. Let the joined path of the category directory and the file name fit
  the \<open>PATH_MAX\<close> buffer. If \<open>stat\<close> finds nothing there, the resolver returns it.
  Otherwise, with the name split at its last dot (no dot, or only a leading dot: the whole
  name is the stem), it returns the candidate \<open>stem_k.ext\<close> for the first \<open>k\<close> in 1..9999
  whose candidate fits the buffer and names nothing; candidates that do not fit are
  skipped. The world is unchanged.
\<close>

theorem build_unique_destination_first_free:
  assumes "length (path_join category_dir filename) < PATH_MAX"
  shows
  "(sys_stat w (path_join category_dir filename) = None \<longrightarrow>
      build_unique_destination category_dir filename out_path PATH_MAX w
        = (0, path_join category_dir filename, w))
   \<and> (sys_stat w (path_join category_dir filename) \<noteq> None
       \<and> filename = stem @ ''.'' @ e \<and> stem \<noteq> [] \<and> CHR ''.'' \<notin> set e
       \<and> first_free w category_dir stem (''.'' @ e) k \<longrightarrow>
      build_unique_destination category_dir filename out_path PATH_MAX w
        = (0, suffixed category_dir stem (''.'' @ e) k, w))
   \<and> (sys_stat w (path_join category_dir filename) \<noteq> None
       \<and> (CHR ''.'' \<notin> set filename \<or> (\<exists>e. filename = ''.'' @ e \<and> CHR ''.'' \<notin> set e))
       \<and> first_free w category_dir filename [] k \<longrightarrow>
      build_unique_destination category_dir filename out_path PATH_MAX w
        = (0, suffixed category_dir filename [] k, w))"
proof (intro conjI impI)
  have len: "length filename < PATH_MAX"
    using assms length_path_join[of filename category_dir] by simp
  show "build_unique_destination category_dir filename out_path PATH_MAX w
        = (0, path_join category_dir filename, w)"
    if "sys_stat w (path_join category_dir filename) = None"
    using assms that by (rule build_unique_destination_plain)
  show "build_unique_destination category_dir filename out_path PATH_MAX w
        = (0, suffixed category_dir stem (''.'' @ e) k, w)"
    if h: "sys_stat w (path_join category_dir filename) \<noteq> None
       \<and> filename = stem @ ''.'' @ e \<and> stem \<noteq> [] \<and> CHR ''.'' \<notin> set e
       \<and> first_free w category_dir stem (''.'' @ e) k"
  proof -
    have "split_filename filename = (stem, ''.'' @ e)"
      using h len split_filename_ext[of stem e] by simp
    with assms h show ?thesis
      by (intro build_unique_destination_suffixed) (auto simp: first_free_def)
  qed
  show "build_unique_destination category_dir filename out_path PATH_MAX w
        = (0, suffixed category_dir filename [] k, w)"
    if h: "sys_stat w (path_join category_dir filename) \<noteq> None
       \<and> (CHR ''.'' \<notin> set filename \<or> (\<exists>e. filename = ''.'' @ e \<and> CHR ''.'' \<notin> set e))
       \<and> first_free w category_dir filename [] k"
  proof -
    have "split_filename filename = (filename, [])"
      using h len by (intro split_filename_noext) auto
    with assms h show ?thesis
      by (intro build_unique_destination_suffixed) (auto simp: first_free_def)
  qed
qed

lemma suffixed_report_1: "suffixed ''d/Documents'' ''report'' ''.txt'' (Suc 0) = ''d/Documents/report_1.txt''"
  by (simp add: suffixed_def string_of_nat_1)

lemma suffixed_report_2: "suffixed ''d/Documents'' ''report'' ''.txt'' 2 = ''d/Documents/report_2.txt''"
  by (simp add: suffixed_def string_of_nat_2)

lemma path_join_report: "path_join ''d/Documents'' ''report.txt'' = ''d/Documents/report.txt''"
  by (simp add: path_join_def)

lemma first_free_report1: "first_free w_report1 ''d/Documents'' ''report'' ''.txt'' 1"
  by (simp add: first_free_def suffixed_report_1 PATH_MAX_def sys_stat_def w_report1_def)

lemma atLeastLessThan_1_2: "{Suc 0..<2} = {Suc 0}"
  by auto

lemma first_free_report2: "first_free w_report ''d/Documents'' ''report'' ''.txt'' 2"
  by (simp add: first_free_def suffixed_report_1 suffixed_report_2 PATH_MAX_def sys_stat_def
      w_report_def atLeastLessThan_1_2)

theorem build_unique_destination_first_free_witness:
  "build_unique_destination ''d/Documents'' ''report.txt'' [] PATH_MAX w_demo
     = (0, ''d/Documents/report.txt'', w_demo)
   \<and> build_unique_destination ''d/Documents'' ''report.txt'' [] PATH_MAX w_report1
     = (0, ''d/Documents/report_1.txt'', w_report1)
   \<and> build_unique_destination ''d/Documents'' ''report.txt'' [] PATH_MAX w_report
     = (0, ''d/Documents/report_2.txt'', w_report)"
proof -
  have fits: "length (path_join ''d/Documents'' ''report.txt'') < PATH_MAX"
    by (simp add: path_join_report PATH_MAX_def)
  note T = build_unique_destination_first_free[OF fits]
  have a: "build_unique_destination ''d/Documents'' ''report.txt'' [] PATH_MAX w_demo
     = (0, ''d/Documents/report.txt'', w_demo)"
    using T[of w_demo, THEN conjunct1]
    by (simp add: path_join_report sys_stat_def w_demo_def)
  have b: "build_unique_destination ''d/Documents'' ''report.txt'' [] PATH_MAX w_report1
     = (0, ''d/Documents/report_1.txt'', w_report1)"
    using T[where w = w_report1 and stem = "''report''" and e = "''txt''" and k = 1,
        THEN conjunct2, THEN conjunct1] first_free_report1
    by (simp add: path_join_report suffixed_report_1 sys_stat_def w_report1_def)
  have c: "build_unique_destination ''d/Documents'' ''report.txt'' [] PATH_MAX w_report
     = (0, ''d/Documents/report_2.txt'', w_report)"
    using T[where w = w_report and stem = "''report''" and e = "''txt''" and k = 2,
        THEN conjunct2, THEN conjunct1] first_free_report2
    by (simp add: path_join_report suffixed_report_2 sys_stat_def w_report_def)
  from a b c show ?thesis by simp
qed

lemma length_base_long: "length base_long = 4074"
  by (simp add: base_long_def length_concat_replicate)

lemma length_cd_long: "length cd_long = 4084"
  by (simp add: cd_long_def length_base_long)

lemma path_join_cd_long: "path_join cd_long ''report.txt'' = cd_long @ ''/report.txt''"
  by (simp add: path_join_def cd_long_def)

lemma suffixed_cd_long_overlong: "PATH_MAX \<le> length (suffixed cd_long ''report'' ''.txt'' j)"
  using length_string_of_nat[of j]
  by (simp add: suffixed_def length_cd_long PATH_MAX_def)

lemma suffixed_cd_long_1: "suffixed cd_long ''report'' ''.txt'' (Suc 0) = cd_long @ ''/report_1.txt''"
  by (simp add: suffixed_def string_of_nat_1)

text \<open>
  The claim as stated fails where a candidate does not fit: the plain path (4095 bytes)
  fits and is taken, nothing exists at the candidate with suffix 1, and the resolver
  returns -1 instead of that candidate.
\<close>

theorem build_unique_destination_counterexample:
  "length (path_join cd_long ''report.txt'') < PATH_MAX
   \<and> sys_stat w_tight (path_join cd_long ''report.txt'') = Some S_IFREG
   \<and> sys_stat w_tight (suffixed cd_long ''report'' ''.txt'' 1) = None
   \<and> fst (build_unique_destination cd_long ''report.txt'' [] PATH_MAX w_tight) = - 1"
proof -
  have a: "length (path_join cd_long ''report.txt'') < PATH_MAX"
    by (simp add: path_join_cd_long length_cd_long PATH_MAX_def)
  have b: "sys_stat w_tight (path_join cd_long ''report.txt'') = Some S_IFREG"
    unfolding path_join_cd_long by (simp add: sys_stat_def w_tight_def cd_long_def)
  have "sys_stat w_tight (suffixed cd_long ''report'' ''.txt'' (Suc 0)) = None"
    unfolding suffixed_cd_long_1 by (simp add: sys_stat_def w_tight_def cd_long_def)
  then have c: "sys_stat w_tight (suffixed cd_long ''report'' ''.txt'' 1) = None"
    by simp
  have "sys_stat w_tight (join_path [] PATH_MAX cd_long ''report.txt'') \<noteq> None"
    using a b by (simp add: join_path_fits)
  from build_unique_destination_fail[OF this split_report]
  have d: "fst (build_unique_destination cd_long ''report.txt'' [] PATH_MAX w_tight) = - 1"
    using suffixed_cd_long_overlong by auto
  from a b c d show ?thesis by simp
qed

subsection \<open>The scan: failures and continuation\<close>

lemma scan_entries_append:
  "scan_entries cfg base (xs @ ys) st = scan_entries cfg base ys (scan_entries cfg base xs st)"
  by (induction xs arbitrary: st) simp_all

lemma scan_entries_snoc:
  "scan_entries cfg base (xs @ [x]) st = scan_entry cfg base (scan_entries cfg base xs st) x"
  by (simp add: scan_entries_append)

lemma scan_entries_take_Suc:
  "i < length es \<Longrightarrow>
   scan_entries cfg base (take (Suc i) es) st
     = scan_entry cfg base (scan_entries cfg base (take i es) st) (es ! i)"
  by (simp add: take_Suc_conv_app_nth scan_entries_snoc)

lemma fst_scan_entry_result_indep:
  "fst (scan_entry cfg base (w, r) name) = fst (scan_entry cfg base (w, r') name)"
  by (simp add: scan_entry_def Let_def split: option.splits prod.splits)

lemma scan_entries_flag:
  "snd (scan_entries cfg base es (w, 0))
     = (if \<exists>i<length es. entry_failed cfg base (fst (scan_entries cfg base (take i es) (w, 0))) (es ! i)
        then 1 else 0)"
proof (induction es rule: rev_induct)
  case Nil
  then show ?case by simp
next
  case (snoc x xs)
  obtain w' r' where st: "scan_entries cfg base xs (w, 0) = (w', r')"
    by (cases "scan_entries cfg base xs (w, 0)")
  let ?F = "\<lambda>es i. entry_failed cfg base (fst (scan_entries cfg base (take i es) (w, 0))) (es ! i)"
  have old: "?F (xs @ [x]) i = ?F xs i" if "i < length xs" for i
    using that by (simp add: nth_append)
  have new: "?F (xs @ [x]) (length xs) = entry_failed cfg base w' x"
    by (simp add: st)
  have ex: "(\<exists>i<length (xs @ [x]). ?F (xs @ [x]) i)
      \<longleftrightarrow> (\<exists>i<length xs. ?F xs i) \<or> entry_failed cfg base w' x"
  proof
    assume "\<exists>i<length (xs @ [x]). ?F (xs @ [x]) i"
    then obtain i where i: "i < length (xs @ [x])" "?F (xs @ [x]) i" by blast
    show "(\<exists>i<length xs. ?F xs i) \<or> entry_failed cfg base w' x"
    proof (cases "i < length xs")
      case True
      with i old[of i] show ?thesis by blast
    next
      case False
      with i have "i = length xs" by simp
      with i new show ?thesis by simp
    qed
  next
    assume "(\<exists>i<length xs. ?F xs i) \<or> entry_failed cfg base w' x"
    then show "\<exists>i<length (xs @ [x]). ?F (xs @ [x]) i"
    proof
      assume "\<exists>i<length xs. ?F xs i"
      then obtain i where "i < length xs" "?F xs i" by blast
      with old[of i] have "i < length (xs @ [x])" "?F (xs @ [x]) i" by simp_all
      then show ?thesis by blast
    next
      assume "entry_failed cfg base w' x"
      with new have "?F (xs @ [x]) (length xs)" by simp
      moreover have "length xs < length (xs @ [x])" by simp
      ultimately show ?thesis by blast
    qed
  qed
  have "snd (scan_entries cfg base (xs @ [x]) (w, 0))
        = (if entry_failed cfg base w' x then 1 else r')"
    by (simp add: scan_entries_snoc st scan_entry_result)
  also have "r' = (if \<exists>i<length xs. ?F xs i then 1 else 0)"
    using snoc.IH st by simp
  finally show ?case
    unfolding ex by auto
qed

lemma organizer_run_valid:
  assumes "target_dir cfg = Some base" "sys_stat w base = Some S_IFDIR"
    "dir_entries w base = Some entries"
  shows "organizer_run (Some cfg) w
     = (snd (scan_entries cfg base entries
               (logger_log LOG_LEVEL_INFO (Organizing_files_in base (dry_run cfg)) w, 0)),
        fst (scan_entries cfg base entries
               (logger_log LOG_LEVEL_INFO (Organizing_files_in base (dry_run cfg)) w, 0)))"
  using assms by (simp add: organizer_run_def split: prod.splits)

lemma ensure_directory_exists_failure:
  "ensure_directory_exists base cat buf sz w = (rc, p, w1) \<Longrightarrow> rc \<noteq> 0 \<Longrightarrow>
   \<exists>m. w1 = logger_log LOG_LEVEL_ERROR m w"
  by (auto simp: ensure_directory_exists_def Let_def sys_mkdir_def
      split: option.splits if_splits prod.splits)

lemma build_unique_destination_world:
  "build_unique_destination cd fn buf sz w = (rc, p, w2) \<Longrightarrow>
   (rc = 0 \<and> w2 = w) \<or> (rc = - 1 \<and> w2 = logger_log LOG_LEVEL_ERROR (Could_not_generate_unique_name fn cd) w)"
  by (auto simp: build_unique_destination_def Let_def split: if_splits prod.splits)

lemma sys_rename_failure:
  "sys_rename src dst w = (rc, w3) \<Longrightarrow> rc \<noteq> 0 \<Longrightarrow> w3 = w"
  by (auto simp: sys_rename_def split: option.splits if_splits)

lemma printed_logger_log_error:
  "printed (logger_log LOG_LEVEL_ERROR m w) = printed w @ [(LOG_LEVEL_ERROR, m)]"
  by (simp add: logger_log_def)

lemma entry_failed_prints_error:
  assumes "entry_failed cfg base w name"
  shows "\<exists>m. last (printed (fst (scan_entry cfg base (w, r) name))) = (LOG_LEVEL_ERROR, m)"
proof -
  let ?src = "join_path [] PATH_MAX base name"
  let ?cat = "category_for_extension (get_extension name)"
  from assms have n: "name \<noteq> ''.''" "name \<noteq> ''..''" and reg: "sys_stat w ?src = Some S_IFREG"
    by (simp_all add: entry_failed_def)
  obtain rc1 cdir w1 where e: "ensure_directory_exists base ?cat [] PATH_MAX w = (rc1, cdir, w1)"
    by (cases "ensure_directory_exists base ?cat [] PATH_MAX w") auto
  show ?thesis
  proof (cases "rc1 = 0")
    case False
    with ensure_directory_exists_failure[OF e] obtain m where "w1 = logger_log LOG_LEVEL_ERROR m w"
      by blast
    with False n reg e show ?thesis
      by (simp add: scan_entry_def Let_def printed_logger_log_error)
  next
    case rc1: True
    obtain rc2 dst w2 where b: "build_unique_destination cdir name [] PATH_MAX w1 = (rc2, dst, w2)"
      by (cases "build_unique_destination cdir name [] PATH_MAX w1") auto
    show ?thesis
    proof (cases "rc2 = 0")
      case False
      with build_unique_destination_world[OF b]
      have "w2 = logger_log LOG_LEVEL_ERROR (Could_not_generate_unique_name name cdir) w1"
        by simp
      with False rc1 n reg e b show ?thesis
        by (simp add: scan_entry_def Let_def printed_logger_log_error)
    next
      case rc2: True
      with assms rc1 e b have dry: "\<not> dry_run cfg" and rn: "fst (sys_rename ?src dst w2) \<noteq> 0"
        by (simp_all add: entry_failed_def)
      obtain rc3 w3 where r: "sys_rename ?src dst w2 = (rc3, w3)"
        by (cases "sys_rename ?src dst w2")
      with rn have "rc3 \<noteq> 0" by simp
      with rc1 rc2 n reg e b dry r show ?thesis
        by (simp add: scan_entry_def Let_def printed_logger_log_error)
    qed
  qed
qed

lemma world_at_Suc:
  "i < length entries \<Longrightarrow>
   world_at cfg base entries w (Suc i)
     = fst (scan_entry cfg base (world_at cfg base entries w i, r) (entries ! i))"
proof -
  assume i: "i < length entries"
  let ?st = "scan_entries cfg base (take i entries)
      (logger_log LOG_LEVEL_INFO (Organizing_files_in base (dry_run cfg)) w, 0)"
  have "world_at cfg base entries w (Suc i) = fst (scan_entry cfg base ?st (entries ! i))"
    by (simp only: world_at_def scan_entries_take_Suc[OF i])
  also have "\<dots> = fst (scan_entry cfg base (fst ?st, snd ?st) (entries ! i))"
    by simp
  also have "\<dots> = fst (scan_entry cfg base (fst ?st, r) (entries ! i))"
    by (rule fst_scan_entry_result_indep)
  finally show ?thesis by (simp add: world_at_def)
qed

text \<open>
  Claim C5. When validation has passed, the scan visits every entry that \<open>readdir\<close>
  delivers, in order, each in the world its predecessors left, and that world does not
  depend on whether an earlier entry failed (the variable \<open>result\<close> is not read by the
  loop). An entry that fails leaves an ERROR line as the last line printed. The value
  returned is 1 when some entry failed in the world where it was visited, and 0 otherwise.
\<close>

theorem organizer_run_continues_after_failure:
  assumes "target_dir cfg = Some base" and "sys_stat w base = Some S_IFDIR"
    and "dir_entries w base = Some entries"
  shows
  "(\<forall>i<length entries. \<forall>r.
      world_at cfg base entries w (Suc i)
        = fst (scan_entry cfg base (world_at cfg base entries w i, r) (entries ! i)))
   \<and> snd (organizer_run (Some cfg) w) = world_at cfg base entries w (length entries)
   \<and> (\<forall>i<length entries.
        entry_failed cfg base (world_at cfg base entries w i) (entries ! i) \<longrightarrow>
        (\<exists>m. last (printed (world_at cfg base entries w (Suc i))) = (LOG_LEVEL_ERROR, m)))
   \<and> fst (organizer_run (Some cfg) w)
        = (if \<exists>i<length entries.
                entry_failed cfg base (world_at cfg base entries w i) (entries ! i)
           then 1 else 0)"
proof (intro conjI allI impI)
  fix i r assume "i < length entries"
  then show "world_at cfg base entries w (Suc i)
        = fst (scan_entry cfg base (world_at cfg base entries w i, r) (entries ! i))"
    by (rule world_at_Suc)
next
  show "snd (organizer_run (Some cfg) w) = world_at cfg base entries w (length entries)"
    by (simp add: organizer_run_valid[OF assms] world_at_def)
next
  fix i assume i: "i < length entries"
    and f: "entry_failed cfg base (world_at cfg base entries w i) (entries ! i)"
  from entry_failed_prints_error[OF f, of 0] world_at_Suc[OF i, of cfg base w 0]
  show "\<exists>m. last (printed (world_at cfg base entries w (Suc i))) = (LOG_LEVEL_ERROR, m)"
    by simp
next
  show "fst (organizer_run (Some cfg) w)
        = (if \<exists>i<length entries.
                entry_failed cfg base (world_at cfg base entries w i) (entries ! i)
           then 1 else 0)"
    by (simp only: organizer_run_valid[OF assms] fst_conv scan_entries_flag world_at_def)
qed

lemma join_d_btxt: "join_path b PATH_MAX ''d'' ''b.txt'' = ''d/b.txt''"
  by (simp add: join_path_fits path_join_def PATH_MAX_def)

lemma join_dDocuments_btxt:
  "join_path b PATH_MAX ''d/Documents'' ''b.txt'' = ''d/Documents/b.txt''"
  by (simp add: join_path_fits path_join_def PATH_MAX_def)

lemma cat_btxt: "category_for_extension (get_extension ''b.txt'') = ''Documents''"
  by (simp add: category_for_extension_def get_extension_def to_lowercase_def lower_char_def
      EXTENSION_TABLE_def)

lemma entries_w_conflict:
  "dir_entries w_conflict ''d'' = Some [''.'', ''..'', ''Images'', ''a.jpg'', ''b.txt'']"
  by (simp add: w_conflict_def)

lemma take_3_entries:
  "take 3 [''.'', ''..'', ''Images'', ''a.jpg'', ''b.txt''] = [''.'', ''..'', ''Images'']"
  by (simp add: numeral_3_eq_3)

lemma world_at_conflict_3:
  "world_at cfg_move ''d'' [''.'', ''..'', ''Images'', ''a.jpg'', ''b.txt''] w_conflict 3
     = w_conflict\<lparr>printed := [(LOG_LEVEL_INFO, Organizing_files_in ''d'' False)]\<rparr>"
  by (simp add: world_at_def take_3_entries scan_entry_def join_d_Images sys_stat_def
      w_conflict_def cfg_move_def logger_log_def Let_def)

lemma entry_failed_conflict:
  "entry_failed cfg_move ''d''
     (w_conflict\<lparr>printed := [(LOG_LEVEL_INFO, Organizing_files_in ''d'' False)]\<rparr>) ''a.jpg''"
  by (simp add: entry_failed_def join_d_ajpg cat_ajpg join_d_Images sys_stat_def
      ensure_directory_exists_def w_conflict_def Let_def)

lemma organizer_run_conflict:
  "snd (organizer_run (Some cfg_move) w_conflict)
     = w_conflict\<lparr>files := ((files w_conflict)(''d/Documents'' \<mapsto> Plain S_IFDIR,
                                 ''d/b.txt'' := None,
                                 ''d/Documents/b.txt'' \<mapsto> Plain S_IFREG)),
                   printed := [(LOG_LEVEL_INFO, Organizing_files_in ''d'' False),
                               (LOG_LEVEL_ERROR, Path_exists_but_is_not_a_directory ''d/Images''),
                               (LOG_LEVEL_INFO, Created_directory ''d/Documents''),
                               (LOG_LEVEL_INFO, Moved ''d/b.txt'' ''d/Documents/b.txt'')]\<rparr>"
  by (simp add: organizer_run_def cfg_move_def w_conflict_def sys_stat_def scan_entry_def
      join_d_ajpg cat_ajpg join_d_Images join_d_btxt cat_btxt join_d_Documents
      join_dDocuments_btxt ensure_directory_exists_def
      build_unique_destination_def sys_mkdir_def sys_rename_def logger_log_def Let_def)

theorem organizer_run_continues_after_failure_witness:
  "fst (organizer_run (Some cfg_move) w_conflict) = 1
   \<and> files (snd (organizer_run (Some cfg_move) w_conflict)) ''d/Documents/b.txt''
       = Some (Plain S_IFREG)
   \<and> files (snd (organizer_run (Some cfg_move) w_conflict)) ''d/a.jpg'' = Some (Plain S_IFREG)"
proof -
  have t: "target_dir cfg_move = Some ''d''" by (simp add: cfg_move_def)
  have s: "sys_stat w_conflict ''d'' = Some S_IFDIR" by (simp add: sys_stat_def w_conflict_def)
  have "entry_failed cfg_move ''d''
          (world_at cfg_move ''d'' [''.'', ''..'', ''Images'', ''a.jpg'', ''b.txt''] w_conflict 3)
          ([''.'', ''..'', ''Images'', ''a.jpg'', ''b.txt''] ! 3)"
  proof -
    have "[''.'', ''..'', ''Images'', ''a.jpg'', ''b.txt''] ! 3 = ''a.jpg''"
      by (simp add: numeral_3_eq_3)
    then show ?thesis
      by (simp only: world_at_conflict_3 entry_failed_conflict)
  qed
  moreover have "(3::nat) < length [''.'', ''..'', ''Images'', ''a.jpg'', ''b.txt'']" by simp
  ultimately have ex: "\<exists>i<length [''.'', ''..'', ''Images'', ''a.jpg'', ''b.txt''].
      entry_failed cfg_move ''d''
          (world_at cfg_move ''d'' [''.'', ''..'', ''Images'', ''a.jpg'', ''b.txt''] w_conflict i)
          ([''.'', ''..'', ''Images'', ''a.jpg'', ''b.txt''] ! i)"
    by blast
  have a: "fst (organizer_run (Some cfg_move) w_conflict) = 1"
    using organizer_run_continues_after_failure[OF t s entries_w_conflict] ex
    by presburger
  have b: "files (snd (organizer_run (Some cfg_move) w_conflict)) ''d/Documents/b.txt''
       = Some (Plain S_IFREG)"
    by (simp add: organizer_run_conflict)
  have c: "files (snd (organizer_run (Some cfg_move) w_conflict)) ''d/a.jpg'' = Some (Plain S_IFREG)"
    unfolding organizer_run_conflict by (simp add: w_conflict_def)
  from a b c show ?thesis by simp
qed

subsection \<open>Provisioning and resolution: what they leave unchanged\<close>

lemma ensure_directory_exists_cases:
  assumes "ensure_directory_exists base cat buf sz w = (rc, p, w1)"
  shows "p = join_path buf sz base cat
    \<and> ((rc = 0 \<and> w1 = w \<and> sys_stat w p = Some S_IFDIR)
       \<or> (rc = 0 \<and> files w p = None
           \<and> w1 = logger_log LOG_LEVEL_INFO (Created_directory p)
                     (w\<lparr>files := (files w)(p \<mapsto> Plain S_IFDIR)\<rparr>))
       \<or> (rc = - 1 \<and> (\<exists>m. w1 = logger_log LOG_LEVEL_ERROR m w)))"
  using assms
  by (auto simp: ensure_directory_exists_def Let_def sys_mkdir_def
      split: option.splits if_splits prod.splits)

lemma ensure_directory_exists_ok:
  assumes "ensure_directory_exists base cat buf sz w = (0, p, w1)"
  shows "sys_stat w1 p = Some S_IFDIR"
  using ensure_directory_exists_cases[OF assms]
  by (auto simp: sys_stat_def)

lemma ensure_directory_exists_keeps:
  assumes "ensure_directory_exists base cat buf sz w = (rc, p, w1)" "files w q = Some nd"
  shows "files w1 q = Some nd"
  using ensure_directory_exists_cases[OF assms(1)] assms(2)
  by auto

lemma suffix_loop_found_free:
  assumes "suffix_loop cd stem ext p PATH_MAX w i = (True, q)" "1 \<le> i"
  shows "sys_stat w q = None \<and> (\<exists>k\<in>{1..9999}. q = suffixed cd stem ext k)"
  using assms
proof (induction "10000 - i" arbitrary: i p)
  case 0
  then show ?case by (simp add: suffix_loop_stop)
next
  case (Suc n)
  then have i: "i < 10000" by simp
  have n: "n = 10000 - (i + 1)" using Suc.hyps(2) by simp
  have i1: "1 \<le> i + 1" by simp
  note IH = Suc.hyps(1)[OF n _ i1]
  from Suc.prems(1) show ?case
    unfolding suffix_loop_step[OF i]
    using IH i Suc.prems(2)
    by (auto split: if_splits)
qed

subsection \<open>The scan and symbolic links\<close>

lemma join_d_link: "join_path b PATH_MAX ''d'' ''link.txt'' = ''d/link.txt''"
  by (simp add: join_path_fits path_join_def PATH_MAX_def)

lemma join_dDocuments_link:
  "join_path b PATH_MAX ''d/Documents'' ''link.txt'' = ''d/Documents/link.txt''"
  by (simp add: join_path_fits path_join_def PATH_MAX_def)

lemma cat_link: "category_for_extension (get_extension ''link.txt'') = ''Documents''"
  by (simp add: category_for_extension_def get_extension_def to_lowercase_def lower_char_def
      EXTENSION_TABLE_def)

text \<open>
  Claim C4, at a concrete input. In \<open>d\<close> the entry \<open>link.txt\<close> is a symbolic link to a
  regular file. \<open>organizer_run\<close> tests it with \<open>stat\<close>, which follows the link and
  reports a regular file, so the entry passes the \<open>S_ISREG\<close> test: the run creates
  \<open>d/Documents\<close>, renames the link into it, logs the move and returns 0. A non-regular
  entry has been acted upon.
\<close>

theorem organizer_run_moves_symlink:
  "files w_link ''d/link.txt'' = Some (Symlink (Some S_IFREG))
   \<and> sys_stat w_link ''d/link.txt'' = Some S_IFREG
   \<and> organizer_run (Some cfg_move) w_link
     = (0, w_link\<lparr>files := ((files w_link)(''d/Documents'' \<mapsto> Plain S_IFDIR,
                                 ''d/link.txt'' := None,
                                 ''d/Documents/link.txt'' \<mapsto> Symlink (Some S_IFREG))),
                   printed := [(LOG_LEVEL_INFO, Organizing_files_in ''d'' False),
                               (LOG_LEVEL_INFO, Created_directory ''d/Documents''),
                               (LOG_LEVEL_INFO, Moved ''d/link.txt'' ''d/Documents/link.txt'')]\<rparr>)"
  by (simp add: organizer_run_def cfg_move_def w_link_def sys_stat_def scan_entry_def
      join_d_link cat_link join_d_Documents join_dDocuments_link ensure_directory_exists_def
      build_unique_destination_def sys_mkdir_def sys_rename_def logger_log_def Let_def)

subsection \<open>What a dry run does keep\<close>

text \<open>
  Under dry-run no \<open>rename\<close> is issued: every node stays at its path (the run can only
  add category directories).
\<close>

lemma scan_entry_dry_run_keeps:
  assumes "dry_run cfg" and p: "files W p = Some nd"
  shows "files (fst (scan_entry cfg base (W, r) name)) p = Some nd"
proof -
  let ?cat = "category_for_extension (get_extension name)"
  obtain rc1 cdir W1 where e: "ensure_directory_exists base ?cat [] PATH_MAX W = (rc1, cdir, W1)"
    by (cases "ensure_directory_exists base ?cat [] PATH_MAX W") auto
  have p1: "files W1 p = Some nd"
    using ensure_directory_exists_keeps[OF e p] .
  obtain rc2 dst W2 where b: "build_unique_destination cdir name [] PATH_MAX W1 = (rc2, dst, W2)"
    by (cases "build_unique_destination cdir name [] PATH_MAX W1") auto
  have p2: "files W2 p = Some nd"
    using build_unique_destination_world[OF b] p1 by auto
  from assms e b p1 p2 show ?thesis
    by (auto simp add: scan_entry_def Let_def split: option.splits)
qed

lemma scan_entries_dry_run_keeps:
  assumes "dry_run cfg" and "files W p = Some nd"
  shows "files (fst (scan_entries cfg base es (W, r))) p = Some nd"
  using assms(2)
proof (induction es arbitrary: W r)
  case Nil
  then show ?case by simp
next
  case (Cons n es)
  obtain W' r' where st: "scan_entry cfg base (W, r) n = (W', r')"
    by (cases "scan_entry cfg base (W, r) n")
  with scan_entry_dry_run_keeps[OF assms(1) Cons.prems, of base r n]
  have "files W' p = Some nd" by simp
  then have "files (fst (scan_entries cfg base es (W', r'))) p = Some nd"
    by (rule Cons.IH)
  with st show ?case by simp
qed

lemma organizer_run_dry_run_keeps:
  assumes "dry_run cfg" and "files w p = Some nd"
  shows "files (snd (organizer_run (Some cfg) w)) p = Some nd"
proof -
  have "files (fst (scan_entries cfg base es
          (logger_log LOG_LEVEL_INFO (Organizing_files_in base (dry_run cfg)) w, 0))) p = Some nd"
    for base es
    by (rule scan_entries_dry_run_keeps[OF assms(1)]) (simp add: assms(2))
  then show ?thesis
    using assms(2)
    by (auto simp add: organizer_run_def split: option.splits prod.splits
        dest!: arg_cong[where f = fst])
qed

end
